theory Spec2Isabelle
  imports Complex_Main
begin

chapter \<open>CrowdDynamics: navigation fields and the adjusting force\<close>

text \<open>
  A shallow embedding of \<^verbatim>\<open>crowddynamics/core/steering/quickest_path.py\<close> and
  \<^verbatim>\<open>crowddynamics/core/motion/adjusting.py\<close>.

  Numbers. A Python float is an IEEE 754 double. A finite double is a real number, so
  floats are modelled as \<^typ>\<open>real\<close>, and every arithmetic operation of the source
  takes the rounding of its result as a parameter \<open>fl\<close>: \<open>exact\<close> reads the
  arithmetic as exact, \<open>binary64\<close> rounds to the nearest number with a 53 bit
  significand, ties to even. The exponent range is not bounded: overflow, underflow,
  infinities and NaN are outside the model, except for the NaN that \<open>direction_map\<close>
  writes itself.

  Libraries. The source calls numpy, scikit-fmm, scikit-image and scipy. Their functions
  are not part of the repository; each one used is modelled from its documented
  behaviour and marked as a library function where it is defined.

  Arrays. A two dimensional array is a list of rows. A masked array holds
  \<open>None\<close> in a masked cell.
\<close>

section \<open>The embedding\<close>

subsection \<open>Floating point\<close>

definition exact :: "real \<Rightarrow> real" where
  "exact x = x"

definition round_even :: "real \<Rightarrow> int" where
  "round_even x =
     (let f = \<lfloor>x\<rfloor>; d = x - of_int f
      in if d < 1 / 2 then f else if 1 / 2 < d then f + 1 else if even f then f else f + 1)"

definition binary64 :: "real \<Rightarrow> real" where
  "binary64 x =
     (if x = 0 then 0
      else let u = 2 powi (\<lfloor>log 2 \<bar>x\<bar>\<rfloor> - 52)
           in of_int (round_even (x / u)) * u)"

text \<open>The double that the Python literal \<^verbatim>\<open>0.1\<close> denotes.\<close>

definition float_0_1 :: real where
  "float_0_1 = 3602879701896397 / 36028797018963968"

subsection \<open>Errors\<close>

text \<open>
  The exceptions of the modelled code paths. \<open>UnsolvableFieldError\<close> is the failure of
  the Eikonal solver, which the source leaves to the library it calls.
\<close>

datatype error = ZeroDivisionError | ValueError | IndexError | UnsolvableFieldError

subsection \<open>Arrays\<close>

type_synonym 'a array2 = "'a list list"

text \<open>Library function \<^verbatim>\<open>numpy.full(shape, fill_value)\<close>.\<close>

definition np_full :: "nat \<times> nat \<Rightarrow> 'a \<Rightarrow> 'a array2" where
  "np_full shp v = replicate (fst shp) (replicate (snd shp) v)"

text \<open>
  An integer index into an axis of length \<open>n\<close>: a negative index counts from the end,
  an index outside \<open>[-n, n)\<close> raises IndexError (\<open>None\<close>).
\<close>

definition py_index :: "nat \<Rightarrow> int \<Rightarrow> nat option" where
  "py_index n i =
     (if 0 \<le> i \<and> i < int n then Some (nat i)
      else if - int n \<le> i \<and> i < 0 then Some (nat (int n + i))
      else None)"

subsection \<open>Grid (\<^verbatim>\<open>meshgrid\<close>, lines 48 to 75)\<close>

text \<open>
  Library function \<^verbatim>\<open>numpy.arange(start, stop, step)\<close> on Python floats. The length is
  \<open>ceil((stop - start) / step)\<close>, computed in doubles; a length that is not positive
  gives the empty array, and a zero step raises ZeroDivisionError in the division. The
  array holds \<open>start\<close>, \<open>start + step\<close>, and then \<open>start + i * delta\<close> with
  \<open>delta = (start + step) - start\<close>.
\<close>

definition np_arange :: "(real \<Rightarrow> real) \<Rightarrow> real \<Rightarrow> real \<Rightarrow> real \<Rightarrow> error + real list" where
  "np_arange fl start stop step =
     (if step = 0 then Inl ZeroDivisionError
      else let n = nat \<lceil>fl (fl (stop - start) / step)\<rceil>;
               second = fl (start + step);
               delta = fl (second - start)
           in Inr (map (\<lambda>i. if i = 0 then start else if i = 1 then second
                              else fl (start + fl (of_nat i * delta))) [0..<n]))"

text \<open>
  Library function \<^verbatim>\<open>numpy.meshgrid(x, y, indexing='xy')\<close>: two arrays of
  \<open>len(y)\<close> rows and \<open>len(x)\<close> columns, \<open>X[r][c] = x[c]\<close> and \<open>Y[r][c] = y[r]\<close>.
\<close>

definition np_meshgrid :: "real list \<Rightarrow> real list \<Rightarrow> real array2 \<times> real array2" where
  "np_meshgrid x y = (replicate (length y) x, map (\<lambda>v. replicate (length x) v) y)"

text \<open>
  The named tuple \<^verbatim>\<open>MeshGrid\<close>. Its fifth field \<^verbatim>\<open>indicer\<close> is a closure over
  \<open>minx\<close>, \<open>miny\<close> and \<open>step\<close>; the model has it as the function \<open>indicer\<close> of the
  grid below.
\<close>

record MeshGrid =
  "values" :: "real array2 \<times> real array2"
  shape :: "nat \<times> nat"
  step :: real
  bounds :: "real \<times> real \<times> real \<times> real"

text \<open>
  \<^verbatim>\<open>.astype(np.int64)\<close> on a double is the cast of C: it drops the fraction, rounding
  toward zero. (A quotient beyond the range of int64 is outside the model.)
\<close>

definition astype_int64 :: "real \<Rightarrow> int" where
  "astype_int64 x = (if 0 \<le> x then \<lfloor>x\<rfloor> else \<lceil>x\<rceil>)"

text \<open>
  \<^verbatim>\<open>shifted = np.asarray(position) - np.array((minx, miny))\<close>;
  \<^verbatim>\<open>return (shifted / step).astype(np.int64)\<close>. The result is the pair
  (column, row). A grid built by \<open>meshgrid\<close> has a step that is not zero.
\<close>

definition indicer :: "(real \<Rightarrow> real) \<Rightarrow> MeshGrid \<Rightarrow> real \<times> real \<Rightarrow> int \<times> int" where
  "indicer fl g position =
     (case bounds g of (minx, miny, maxx, maxy) \<Rightarrow>
        (astype_int64 (fl (fl (fst position - minx) / step g)),
         astype_int64 (fl (fl (snd position - miny) / step g))))"

definition meshgrid ::
  "(real \<Rightarrow> real) \<Rightarrow> real \<Rightarrow> real \<Rightarrow> real \<Rightarrow> real \<Rightarrow> real \<Rightarrow> error + MeshGrid" where
  "meshgrid fl = (\<lambda>step minx miny maxx maxy.
     (case np_arange fl minx (fl (maxx + step)) step of
        Inl e \<Rightarrow> Inl e
      | Inr x \<Rightarrow>
          (case np_arange fl miny (fl (maxy + step)) step of
             Inl e \<Rightarrow> Inl e
           | Inr y \<Rightarrow>
               Inr \<lparr>values = np_meshgrid x y, shape = (length y, length x),
                    step = step, bounds = (minx, miny, maxx, maxy)\<rparr>)))"

subsection \<open>Rasterization (\<^verbatim>\<open>values_to_grid\<close>, lines 79 to 96)\<close>

text \<open>
  \<^verbatim>\<open>for x, y in geom_to_skimage(geom, indicer): grid[y, x] = value\<close>.
  \<^verbatim>\<open>geom_to_skimage\<close> (crowddynamics.core.geometry) is not among the sources: the
  model takes the index pairs it yields, in order. The array is updated in place in the
  source and returned here.
\<close>

fun values_to_grid :: "(int \<times> int) list \<Rightarrow> 'a array2 \<Rightarrow> 'a \<Rightarrow> error + 'a array2" where
  "values_to_grid [] grid v = Inr grid"
| "values_to_grid ((x, y) # cells) grid v =
     (case py_index (length grid) y of
        None \<Rightarrow> Inl IndexError
      | Some r \<Rightarrow>
          (case py_index (length (grid ! r)) x of
             None \<Rightarrow> Inl IndexError
           | Some c \<Rightarrow> values_to_grid cells (grid[r := (grid ! r)[c := v]]) v))"

subsection \<open>Distance map (\<^verbatim>\<open>distance_map\<close>, lines 102 to 169)\<close>

text \<open>Library function \<^verbatim>\<open>numpy.ma.MaskedArray(data, mask)\<close>.\<close>

definition masked_array :: "real array2 \<Rightarrow> bool array2 \<Rightarrow> real option array2" where
  "masked_array a m = map2 (map2 (\<lambda>v b. if b then None else Some v)) a m"

text \<open>
  Modelled from the spec: the Eikonal solver. The source calls \<^verbatim>\<open>skfmm.distance\<close>, a
  library whose code is not among the sources. The spec: "Fails with
  UnsolvableFieldError when targetCells is empty (no zero-level set to propagate from)".
  The target cells of the array \<open>phi\<close> are its unmasked positive cells. The field that
  the wavefront propagation computes otherwise is not modelled: it is the parameter
  \<open>march\<close>.
\<close>

definition eikonal_solve ::
  "(real option array2 \<Rightarrow> real \<Rightarrow> real option array2) \<Rightarrow> real option array2 \<Rightarrow> real
     \<Rightarrow> error + real option array2" where
  "eikonal_solve march phi dx =
     (if list_ex (list_ex (\<lambda>c. case c of None \<Rightarrow> False | Some v \<Rightarrow> 0 < v)) phi
      then Inr (march phi dx) else Inl UnsolvableFieldError)"

text \<open>
  \<open>targets\<close> and \<open>obstacles\<close> are the cells that \<^verbatim>\<open>geom_to_skimage\<close> yields for the
  two geometries; \<open>obstacles\<close> is optional as in the source.
\<close>

definition distance_map ::
  "(real option array2 \<Rightarrow> real \<Rightarrow> real option array2) \<Rightarrow> MeshGrid \<Rightarrow> (int \<times> int) list
     \<Rightarrow> (int \<times> int) list option \<Rightarrow> error + real option array2" where
  "distance_map march mgrid targets obstacles =
     (let empty_region = - 1; target_region = 1;
          obstacle_region = True; non_obstacle_region = False
      in case values_to_grid targets (np_full (shape mgrid) empty_region) target_region of
           Inl e \<Rightarrow> Inl e
         | Inr contour \<Rightarrow>
             (case (case obstacles of
                      None \<Rightarrow> Inr (np_full (shape mgrid) non_obstacle_region)
                    | Some cells \<Rightarrow>
                        values_to_grid cells (np_full (shape mgrid) non_obstacle_region)
                          obstacle_region) of
                Inl e \<Rightarrow> Inl e
              | Inr mask' \<Rightarrow> eikonal_solve march (masked_array contour mask') (step mgrid)))"

subsection \<open>Direction map (\<^verbatim>\<open>direction_map\<close>, lines 197 to 217)\<close>

text \<open>
  Arithmetic of masked arrays (library): a difference is masked where an operand is,
  a quotient by a scalar keeps the mask.
\<close>

definition msub :: "(real \<Rightarrow> real) \<Rightarrow> real option \<Rightarrow> real option \<Rightarrow> real option" where
  "msub fl a b = (case (a, b) of (Some x, Some y) \<Rightarrow> Some (fl (x - y)) | _ \<Rightarrow> None)"

definition mdiv :: "(real \<Rightarrow> real) \<Rightarrow> real option \<Rightarrow> real \<Rightarrow> real option" where
  "mdiv fl a c = map_option (\<lambda>x. fl (x / c)) a"

text \<open>
  Library function \<^verbatim>\<open>numpy.gradient\<close> with unit spacing along one axis: the central
  difference \<open>(f[i+1] - f[i-1]) / 2\<close> inside, the one sided differences \<open>f[1] - f[0]\<close>
  and \<open>f[-1] - f[-2]\<close> at the two ends. Each difference is written over the cell with
  its mask, so a cell of the result is masked exactly when a cell it reads is.
\<close>

definition gradient_1d :: "(real \<Rightarrow> real) \<Rightarrow> real option list \<Rightarrow> real option list" where
  "gradient_1d fl f =
     map (\<lambda>i. if i = 0 then mdiv fl (msub fl (f ! 1) (f ! 0)) 1
               else if i = length f - 1 then mdiv fl (msub fl (f ! i) (f ! (i - 1))) 1
               else mdiv fl (msub fl (f ! (i + 1)) (f ! (i - 1))) 2)
         [0..<length f]"

text \<open>
  On a two dimensional array \<^verbatim>\<open>numpy.gradient\<close> returns the derivative along the rows
  axis (down the columns) and then the one along the columns axis; it raises ValueError
  when an axis has fewer than two cells.
\<close>

definition np_gradient ::
  "(real \<Rightarrow> real) \<Rightarrow> real option array2 \<Rightarrow> error + real option array2 \<times> real option array2" where
  "np_gradient fl f =
     (if length f < 2 then Inl ValueError
      else if length (hd f) < 2 then Inl ValueError
      else Inr (transpose (map (gradient_1d fl) (transpose f)), map (gradient_1d fl) f))"

text \<open>
  One cell of \<^verbatim>\<open>l = np.hypot(u, v); l[l == 0] = np.nan; return v / l, u / l\<close>.
  \<^verbatim>\<open>np.hypot\<close> is taken as the rounded square root of the exact sum of squares. The
  quotient of masked arrays is masked where an operand is and where it is not finite,
  which is where \<open>l\<close> is the NaN that replaced a zero. (numpy also masks a quotient
  whose divisor is below \<open>2.2e-308\<close> times the dividend; a length is never that small
  against its own component, and the model leaves this test out.) The two arrays
  returned share that mask, so the pair is modelled as one array of optional vectors
  \<open>(v / l, u / l)\<close>.
\<close>

definition direction_cell ::
  "(real \<Rightarrow> real) \<Rightarrow> real option \<Rightarrow> real option \<Rightarrow> (real \<times> real) option" where
  "direction_cell fl u v =
     (case (u, v) of
        (Some a, Some b) \<Rightarrow>
          (let l = fl (sqrt (a * a + b * b))
           in if l = 0 then None else Some (fl (b / l), fl (a / l)))
      | _ \<Rightarrow> None)"

definition direction_map ::
  "(real \<Rightarrow> real) \<Rightarrow> real option array2 \<Rightarrow> error + (real \<times> real) option array2" where
  "direction_map fl dmap =
     (case np_gradient fl dmap of
        Inl e \<Rightarrow> Inl e
      | Inr (u, v) \<Rightarrow> Inr (map2 (map2 (direction_cell fl)) u v))"

subsection \<open>Field repair (\<^verbatim>\<open>fill_missing\<close>, lines 223 to 247)\<close>

text \<open>
  Library function \<^verbatim>\<open>skimage.segmentation.find_boundaries(m, mode='outer')\<close> on a
  boolean array: the cells that are False and have a True cell among their four
  neighbours.
\<close>

definition find_boundaries :: "bool array2 \<Rightarrow> bool array2" where
  "find_boundaries m =
     map (\<lambda>i. map (\<lambda>j. \<not> m ! i ! j \<and>
                        ((0 < i \<and> m ! (i - 1) ! j) \<or> (i + 1 < length m \<and> m ! (i + 1) ! j) \<or>
                         (0 < j \<and> m ! i ! (j - 1)) \<or> (j + 1 < length (m ! i) \<and> m ! i ! (j + 1))))
                [0..<length (m ! i)])
         [0..<length m]"

text \<open>The cells that a boolean index selects, row by row.\<close>

definition true_cells :: "bool array2 \<Rightarrow> (nat \<times> nat) list" where
  "true_cells b =
     concat (map (\<lambda>i. map (\<lambda>j. (i, j)) (filter (\<lambda>j. b ! i ! j) [0..<length (b ! i)]))
                 [0..<length b])"

text \<open>
  Library class \<^verbatim>\<open>scipy.interpolate.NearestNDInterpolator\<close>: the data of the point
  nearest to the query, by Euclidean distance. Among several nearest points the library
  does not say which one it takes; the model takes the first.
\<close>

definition sqdist :: "real \<times> real \<Rightarrow> real \<times> real \<Rightarrow> real" where
  "sqdist p q = (fst p - fst q) * (fst p - fst q) + (snd p - snd q) * (snd p - snd q)"

definition nearest :: "((real \<times> real) \<times> 'v) list \<Rightarrow> real \<times> real \<Rightarrow> 'v" where
  "nearest pvs q = snd (arg_min_list (\<lambda>pv. sqdist (fst pv) q) pvs)"

text \<open>
  \<open>dir_map\<close> is updated in place in the source and returned here. \<open>umask\<close> is
  \<^verbatim>\<open>u.mask\<close>, \<open>mask2\<close> is \<^verbatim>\<open>np.logical_xor(mask, u.mask)\<close>. Arrays of different
  shapes are rejected (numpy raises, or broadcasts a mask with an axis of length one,
  which the model does not follow). With no boundary cell the query for a cell to fill
  has no answer (IndexError).
\<close>

definition fill_missing ::
  "bool array2 \<Rightarrow> MeshGrid \<Rightarrow> (real \<times> real) option array2
     \<Rightarrow> error + (real \<times> real) option array2" where
  "fill_missing = (\<lambda>mask mgrid dir_map.
     (case values mgrid of (x, y) \<Rightarrow>
        let umask = map (map (\<lambda>c. c = None)) dir_map;
            boundaries = true_cells (find_boundaries umask);
            points = map (\<lambda>(i, j). ((y ! i ! j, x ! i ! j), dir_map ! i ! j)) boundaries;
            mask2 = map2 (map2 (\<lambda>a b. a \<noteq> b)) mask umask
        in if map length x = map length dir_map \<and> map length y = map length dir_map
           then if map length mask = map length dir_map
                then if boundaries = [] \<and> true_cells mask2 \<noteq> [] then Inl IndexError
                     else Inr (map (\<lambda>i. map (\<lambda>j. if mask2 ! i ! j
                                                    then nearest points (y ! i ! j, x ! i ! j)
                                                    else dir_map ! i ! j)
                                            [0..<length (dir_map ! i)])
                                   [0..<length dir_map])
                else Inl ValueError
           else Inl IndexError))"

subsection \<open>The compositor (\<^verbatim>\<open>direction_map_targets\<close>, lines 250 to 262)\<close>

text \<open>
  \<^verbatim>\<open>obstacles.buffer(buffer_radius).intersection(domain)\<close> is geometry of a library;
  the model takes the cells of the targets, of the buffered obstacles and of the
  obstacles themselves.
\<close>

definition direction_map_targets ::
  "(real \<Rightarrow> real) \<Rightarrow> (real option array2 \<Rightarrow> real \<Rightarrow> real option array2) \<Rightarrow> MeshGrid
     \<Rightarrow> (int \<times> int) list \<Rightarrow> (int \<times> int) list \<Rightarrow> (int \<times> int) list
     \<Rightarrow> error + (real \<times> real) option array2 \<times> real option array2" where
  "direction_map_targets fl march mgrid targets obstacles_buffered obstacles =
     (case distance_map march mgrid targets (Some obstacles_buffered) of
        Inl e \<Rightarrow> Inl e
      | Inr dmap_targets \<Rightarrow>
          (case direction_map fl dmap_targets of
             Inl e \<Rightarrow> Inl e
           | Inr dir_map_targets \<Rightarrow>
               (case values_to_grid obstacles (np_full (shape mgrid) False) True of
                  Inl e \<Rightarrow> Inl e
                | Inr mask' \<Rightarrow>
                    (case fill_missing mask' mgrid dir_map_targets of
                       Inl e \<Rightarrow> Inl e
                     | Inr filled \<Rightarrow> Inr (filled, dmap_targets)))))"

subsection \<open>Adjusting force and torque (adjusting.py)\<close>

text \<open>
  \<^verbatim>\<open>return (mass / tau_adj) * (v0 * e0 - v)\<close>, with \<open>e0\<close> and \<open>v\<close> arrays of
  two floats. The function is compiled by numba in nopython mode, whose division raises
  ZeroDivisionError on a zero divisor.
\<close>

definition force_adjust ::
  "(real \<Rightarrow> real) \<Rightarrow> real \<Rightarrow> real \<Rightarrow> real \<Rightarrow> real \<times> real \<Rightarrow> real \<times> real \<Rightarrow> error + real \<times> real" where
  "force_adjust fl mass tau_adj v0 e0 v =
     (if tau_adj = 0 then Inl ZeroDivisionError
      else let k = fl (mass / tau_adj)
           in Inr (fl (k * fl (fl (v0 * fst e0) - fst v)),
                   fl (k * fl (fl (v0 * snd e0) - snd v))))"

text \<open>
  Modelled from the spec: \<^verbatim>\<open>wrap_to_pi\<close> (crowddynamics.core.vector), which is not
  among the sources. The spec: "the angular error phi0 - phi is wrapped into [-pi, pi]";
  the docstring of \<^verbatim>\<open>torque_adjust\<close> says the same. An angle in the interval is left
  as it is, any other is moved into it by a multiple of \<open>2 * pi\<close>.
\<close>

definition wrap_to_pi :: "real \<Rightarrow> real" where
  "wrap_to_pi x =
     (if - pi \<le> x \<and> x \<le> pi then x else x - 2 * pi * of_int \<lfloor>(x + pi) / (2 * pi)\<rfloor>)"

text \<open>
  \<^verbatim>\<open>return inertia_rot / tau_rot * (wrap_to_pi(phi_0 - phi) / np.pi * omega_0 - omega)\<close>.
  \<^verbatim>\<open>np.pi\<close> is the double nearest to \<open>pi\<close>; the model divides by \<open>pi\<close>.
\<close>

definition torque_adjust ::
  "(real \<Rightarrow> real) \<Rightarrow> real \<Rightarrow> real \<Rightarrow> real \<Rightarrow> real \<Rightarrow> real \<Rightarrow> real \<Rightarrow> error + real" where
  "torque_adjust fl inertia_rot tau_rot phi_0 phi omega_0 omega =
     (if tau_rot = 0 then Inl ZeroDivisionError
      else Inr (fl (fl (inertia_rot / tau_rot) *
                    fl (fl (fl (wrap_to_pi (fl (phi_0 - phi)) / pi) * omega_0) - omega))))"

subsection \<open>The unit vector invariant\<close>

text \<open>
  A direction field keeps the invariant when each defined cell holds a vector whose
  Euclidean length is 1 up to \<open>10\<^sup>-\<^sup>6\<close>.
\<close>

definition unit_cell :: "(real \<times> real) option \<Rightarrow> bool" where
  "unit_cell c =
     (case c of None \<Rightarrow> True
      | Some e \<Rightarrow> \<bar>sqrt (fst e * fst e + snd e * snd e) - 1\<bar> \<le> 1 / 10 ^ 6)"

definition unit_field :: "(real \<times> real) option array2 \<Rightarrow> bool" where
  "unit_field d = list_all (list_all unit_cell) d"

text \<open>Cells that index an array of the given shape (negative indices included).\<close>

definition cells_in_grid :: "nat \<times> nat \<Rightarrow> (int \<times> int) list \<Rightarrow> bool" where
  "cells_in_grid shp cells =
     list_all (\<lambda>(x, y). py_index (fst shp) y \<noteq> None \<and> py_index (snd shp) x \<noteq> None) cells"

section \<open>Properties\<close>

subsection \<open>Rounding to binary64\<close>

lemma round_even_near:
  assumes "\<bar>x - of_int n\<bar> < 1 / 2"
  shows "round_even x = n"
proof (cases "of_int n \<le> x")
  case True
  then have "\<lfloor>x\<rfloor> = n"
    using assms by (simp add: floor_eq_iff abs_if split: if_splits)
  then show ?thesis
    using assms True by (simp add: round_even_def Let_def)
next
  case False
  then have "\<lfloor>x\<rfloor> = n - 1"
    using assms by (simp add: floor_eq_iff abs_if split: if_splits)
  then show ?thesis
    using assms False by (simp add: round_even_def Let_def abs_if split: if_splits)
qed

lemma floor_log2_eq:
  assumes "2 powi e \<le> y" "y < 2 powi (e + 1)"
  shows "\<lfloor>log 2 y\<rfloor> = e"
proof -
  have "(0::real) < 2 powi e"
    by simp
  then have pos: "0 < y"
    using assms(1) by linarith
  have a: "2 powr (real_of_int e) = (2::real) powi e"
    by (simp add: powr_real_of_int')
  have b: "2 powr (real_of_int e + 1) = (2::real) powi (e + 1)"
    using powr_real_of_int' [of 2 "e + 1"] by simp
  show ?thesis
    using assms pos by (simp add: floor_log_eq_powr_iff a b)
qed

text \<open>
  How a concrete number is rounded: \<open>x\<close> lies in the binade whose unit in the last
  place is \<open>u\<close>, and \<open>n * u\<close> is strictly nearer to it than half a unit.
\<close>

lemma binary64_eqI:
  assumes u: "u = 2 powi k"
    and lo: "2 ^ 52 * u \<le> \<bar>x\<bar>" and hi: "\<bar>x\<bar> < 2 ^ 53 * u"
    and near: "\<bar>x - of_int n * u\<bar> < u / 2"
  shows "binary64 x = of_int n * u"
proof -
  have upos: "0 < u"
    by (simp add: u)
  have e1: "(2::real) powi (k + 52) = 2 ^ 52 * u"
    by (simp add: u power_int_add)
  have e2: "(2::real) powi (k + 52 + 1) = 2 ^ 53 * u"
    by (simp add: u power_int_add)
  have fl: "\<lfloor>log 2 \<bar>x\<bar>\<rfloor> = k + 52"
    by (rule floor_log2_eq) (simp_all only: e1 e2 lo hi)
  have nz: "x \<noteq> 0"
    using lo upos by auto
  have "x / u - of_int n = (x - of_int n * u) / u"
    using upos by (simp add: field_simps)
  then have "\<bar>x / u - of_int n\<bar> = \<bar>x - of_int n * u\<bar> / u"
    using upos by simp
  also have "\<dots> < 1 / 2"
    using near upos by (simp add: field_simps)
  finally have "round_even (x / u) = n"
    by (rule round_even_near)
  then show ?thesis
    using nz fl by (simp add: binary64_def u)
qed

lemma binary64_0 [simp]: "binary64 0 = 0"
  by (simp add: binary64_def)

lemma round_even_of_int [simp]: "round_even (of_int j) = j"
  by (rule round_even_near) simp

text \<open>A number with a significand of at most 53 bits is not changed.\<close>

lemma binary64_representable:
  assumes x: "x = of_int m * 2 powi k" and m: "\<bar>m\<bar> < 2 ^ 53"
  shows "binary64 x = x"
proof (cases "m = 0")
  case True
  then show ?thesis by (simp add: x)
next
  case False
  define e where "e = \<lfloor>log 2 \<bar>x\<bar>\<rfloor>"
  have xpos: "0 < \<bar>x\<bar>"
    using False by (simp add: x)
  have "\<bar>x\<bar> = of_int \<bar>m\<bar> * 2 powi k"
    by (simp add: x abs_mult)
  also have "\<dots> < 2 ^ 53 * 2 powi k"
  proof -
    have "(of_int \<bar>m\<bar> :: real) < of_int (2 ^ 53)"
      using m by (simp only: of_int_less_iff)
    then show ?thesis by simp
  qed
  also have "\<dots> = 2 powi (k + 53)"
    by (simp add: power_int_add)
  finally have lt: "\<bar>x\<bar> < 2 powi (k + 53)" .
  have "2 powr (real_of_int e) \<le> \<bar>x\<bar>"
    using xpos floor_log_eq_powr_iff [of "\<bar>x\<bar>" 2 e] by (simp add: e_def)
  then have "(2::real) powi e \<le> \<bar>x\<bar>"
    by (simp add: powr_real_of_int')
  with lt have "(2::real) powi e < 2 powi (k + 53)"
    by linarith
  then have "e < k + 53"
    using power_int_increasing [of "k + 53" e "2::real"] by (cases "e < k + 53") auto
  then obtain j where j: "k - (e - 52) = int j"
    using nonneg_int_cases [of "k - (e - 52)"] by auto
  have "x / 2 powi (e - 52) = of_int m * 2 powi (k - (e - 52))"
    by (simp add: x power_int_diff)
  also have "\<dots> = of_int (m * 2 ^ j)"
    by (simp add: j)
  finally have q: "x / 2 powi (e - 52) = of_int (m * 2 ^ j)" .
  have r: "round_even (x / 2 powi (e - 52)) = m * 2 ^ j"
    unfolding q by (rule round_even_of_int)
  have "x \<noteq> 0"
    using xpos by simp
  then have "binary64 x = of_int (round_even (x / 2 powi (e - 52))) * 2 powi (e - 52)"
    by (simp add: binary64_def e_def Let_def)
  then have "binary64 x = of_int (m * 2 ^ j) * 2 powi (e - 52)"
    by (simp only: r)
  also have "\<dots> = x"
    using q by (simp add: field_simps)
  finally show ?thesis .
qed

lemma binary64_of_int: "\<bar>m\<bar> < 2 ^ 53 \<Longrightarrow> binary64 (of_int m) = of_int m"
  using binary64_representable [of "of_int m" m 0] by simp

lemma binary64_1 [simp]: "binary64 1 = 1"
  using binary64_of_int [of 1] by simp

lemma binary64_4 [simp]: "binary64 4 = 4"
  using binary64_of_int [of 4] by simp

text \<open>
  Rounding to binary64 has a relative error of at most \<open>2\<^sup>-\<^sup>5\<^sup>3\<close>: the standard model of
  floating point arithmetic, for a rounding with an unbounded exponent.
\<close>

lemma round_even_error: "\<bar>of_int (round_even x) - x\<bar> \<le> 1 / 2"
proof -
  have "of_int \<lfloor>x\<rfloor> \<le> x" "x < of_int \<lfloor>x\<rfloor> + 1"
    by linarith+
  then show ?thesis
    by (auto simp: round_even_def Let_def abs_le_iff)
qed

lemma binary64_rel_error: "\<bar>binary64 x - x\<bar> \<le> (1 / 2 ^ 53) * \<bar>x\<bar>"
proof (cases "x = 0")
  case True
  then show ?thesis by simp
next
  case False
  define e where "e = \<lfloor>log 2 \<bar>x\<bar>\<rfloor>"
  define u :: real where "u = 2 powi (e - 52)"
  have upos: "0 < u"
    by (simp add: u_def)
  have xpos: "0 < \<bar>x\<bar>"
    using False by simp
  have "2 powr (real_of_int e) \<le> \<bar>x\<bar>"
    using xpos floor_log_eq_powr_iff [of "\<bar>x\<bar>" 2 e] by (simp add: e_def)
  then have lo: "(2::real) powi e \<le> \<bar>x\<bar>"
    by (simp add: powr_real_of_int')
  have b: "binary64 x = of_int (round_even (x / u)) * u"
    using False by (simp add: binary64_def Let_def u_def e_def)
  have "binary64 x - x = (of_int (round_even (x / u)) - x / u) * u"
    using upos by (simp add: b field_simps)
  then have "\<bar>binary64 x - x\<bar> = \<bar>of_int (round_even (x / u)) - x / u\<bar> * u"
    using upos by (simp add: abs_mult)
  also have "\<dots> \<le> (1 / 2) * u"
    using round_even_error [of "x / u"] upos by (simp add: mult_right_mono)
  also have "\<dots> = (1 / 2 ^ 53) * 2 powi e"
    by (simp add: u_def power_int_diff)
  also have "\<dots> \<le> (1 / 2 ^ 53) * \<bar>x\<bar>"
    using lo by (simp add: mult_left_mono)
  finally show ?thesis .
qed

lemma rel_error_bounds:
  fixes fl :: "real \<Rightarrow> real"
  assumes fl: "\<And>x. \<bar>fl x - x\<bar> \<le> eps * \<bar>x\<bar>"
  shows "0 \<le> eps" and "(1 - eps) * \<bar>x\<bar> \<le> \<bar>fl x\<bar>" and "\<bar>fl x\<bar> \<le> (1 + eps) * \<bar>x\<bar>"
proof -
  show "0 \<le> eps"
    using fl [of 1] by simp
  show "(1 - eps) * \<bar>x\<bar> \<le> \<bar>fl x\<bar>"
    using fl [of x] by (simp add: algebra_simps abs_if split: if_splits)
  show "\<bar>fl x\<bar> \<le> (1 + eps) * \<bar>x\<bar>"
    using fl [of x] by (simp add: algebra_simps abs_if split: if_splits)
qed

lemma rel_error_square:
  fixes fl :: "real \<Rightarrow> real"
  assumes fl: "\<And>x. \<bar>fl x - x\<bar> \<le> eps * \<bar>x\<bar>" and e1: "eps \<le> 1"
  shows "((1 - eps) * x)\<^sup>2 \<le> (fl x)\<^sup>2" and "(fl x)\<^sup>2 \<le> ((1 + eps) * x)\<^sup>2"
proof -
  have e0: "0 \<le> eps"
    by (rule rel_error_bounds(1) [OF fl])
  have "\<bar>(1 - eps) * x\<bar> = (1 - eps) * \<bar>x\<bar>"
    using e1 by (simp add: abs_mult)
  then have "\<bar>(1 - eps) * x\<bar> \<le> \<bar>fl x\<bar>"
    using rel_error_bounds(2) [OF fl, of x] by simp
  then show "((1 - eps) * x)\<^sup>2 \<le> (fl x)\<^sup>2"
    by (rule abs_le_square_iff [THEN iffD1])
  have "\<bar>(1 + eps) * x\<bar> = (1 + eps) * \<bar>x\<bar>"
    using e0 by (simp add: abs_mult)
  then have "\<bar>fl x\<bar> \<le> \<bar>(1 + eps) * x\<bar>"
    using rel_error_bounds(3) [OF fl, of x] by simp
  then show "(fl x)\<^sup>2 \<le> ((1 + eps) * x)\<^sup>2"
    by (rule abs_le_square_iff [THEN iffD1])
qed

subsection \<open>The grid\<close>

lemma np_arange_nth:
  assumes "np_arange fl start stop s = Inr xs" "i < length xs"
  shows "xs ! i = (if i = 0 then start else if i = 1 then fl (start + s)
                   else fl (start + fl (of_nat i * fl (fl (start + s) - start))))"
proof -
  define n where "n = nat \<lceil>fl (fl (stop - start) / s)\<rceil>"
  have xs: "xs = map (\<lambda>i. if i = 0 then start else if i = 1 then fl (start + s)
                     else fl (start + fl (of_nat i * fl (fl (start + s) - start)))) [0..<n]"
    using assms(1) by (simp add: np_arange_def Let_def n_def split: if_splits)
  have "i < n"
    using assms(2) by (simp add: xs)
  then show ?thesis
    by (simp add: xs)
qed

lemma np_arange_length:
  assumes "np_arange fl start stop s = Inr xs"
  shows "length xs = nat \<lceil>fl (fl (stop - start) / s)\<rceil>"
  using assms by (auto simp: np_arange_def Let_def split: if_splits)

lemma np_arange_Inr:
  "s \<noteq> 0 \<Longrightarrow> \<exists>xs. np_arange fl start stop s = Inr xs"
  by (simp add: np_arange_def Let_def)

lemma meshgrid_Inr:
  assumes "s \<noteq> 0"
  shows "\<exists>g. meshgrid fl s minx miny maxx maxy = Inr g"
proof -
  obtain x where x: "np_arange fl minx (fl (maxx + s)) s = Inr x"
    using np_arange_Inr [OF assms] by blast
  obtain y where y: "np_arange fl miny (fl (maxy + s)) s = Inr y"
    using np_arange_Inr [OF assms] by blast
  show ?thesis
    by (simp add: meshgrid_def x y)
qed

lemma meshgrid_shape:
  assumes "meshgrid fl s minx miny maxx maxy = Inr g"
  shows "shape g = (nat \<lceil>fl (fl (fl (maxy + s) - miny) / s)\<rceil>,
                    nat \<lceil>fl (fl (fl (maxx + s) - minx) / s)\<rceil>)"
    and "step g = s" and "bounds g = (minx, miny, maxx, maxy)"
  using assms
  by (auto simp: meshgrid_def np_arange_length split: sum.splits)

lemma meshgrid_coordinate:
  assumes g: "meshgrid fl s minx miny maxx maxy = Inr g"
    and r: "r < fst (shape g)" and c: "c < snd (shape g)"
  shows "fst (values g) ! r ! c =
           (if c = 0 then minx else if c = 1 then fl (minx + s)
            else fl (minx + fl (of_nat c * fl (fl (minx + s) - minx))))"
    and "snd (values g) ! r ! c =
           (if r = 0 then miny else if r = 1 then fl (miny + s)
            else fl (miny + fl (of_nat r * fl (fl (miny + s) - miny))))"
proof -
  obtain x y where x: "np_arange fl minx (fl (maxx + s)) s = Inr x"
    and y: "np_arange fl miny (fl (maxy + s)) s = Inr y"
    and g': "g = \<lparr>values = np_meshgrid x y, shape = (length y, length x),
                    step = s, bounds = (minx, miny, maxx, maxy)\<rparr>"
    using g by (auto simp: meshgrid_def split: sum.splits)
  have rl: "r < length y" and cl: "c < length x"
    using r c by (simp_all add: g')
  have "fst (values g) ! r ! c = x ! c"
    using rl cl by (simp add: g' np_meshgrid_def)
  then show "fst (values g) ! r ! c =
           (if c = 0 then minx else if c = 1 then fl (minx + s)
            else fl (minx + fl (of_nat c * fl (fl (minx + s) - minx))))"
    using np_arange_nth [OF x cl] by simp
  have "snd (values g) ! r ! c = y ! r"
    using rl cl by (simp add: g' np_meshgrid_def)
  then show "snd (values g) ! r ! c =
           (if r = 0 then miny else if r = 1 then fl (miny + s)
            else fl (miny + fl (of_nat r * fl (fl (miny + s) - miny))))"
    using np_arange_nth [OF y rl] by simp
qed


lemma astype_int64_of_nat [simp]: "astype_int64 (of_nat n) = int n"
  by (simp add: astype_int64_def)

lemma indicer_roundtrip_exact:
  assumes g: "meshgrid exact s minx miny maxx maxy = Inr g" and s: "s \<noteq> 0"
    and r: "r < fst (shape g)" and c: "c < snd (shape g)"
  shows "indicer exact g (fst (values g) ! r ! c, snd (values g) ! r ! c) = (int c, int r)"
proof -
  have x: "fst (values g) ! r ! c = minx + of_nat c * s"
    using meshgrid_coordinate(1) [OF g r c] by (simp add: exact_def)
  have y: "snd (values g) ! r ! c = miny + of_nat r * s"
    using meshgrid_coordinate(2) [OF g r c] by (simp add: exact_def)
  show ?thesis
    using s by (simp add: indicer_def meshgrid_shape(2,3) [OF g] x y exact_def)
qed

text \<open>
  Claim C6 (round trip of an index through its coordinate). In exact arithmetic the
  round trip holds (\<open>indicer_roundtrip_exact\<close>). In doubles it fails on lattice
  points: for the grid \<^verbatim>\<open>meshgrid(0.1, 0, 0, 5, 5)\<close>, of 51 rows and columns, the
  coordinate of row 0, column 43 is the double 4.3, the quotient \<open>4.3 / 0.1\<close> rounds to
  42.99999999999999, and the cast drops the fraction: \<open>indicer\<close> answers column 42.
\<close>

theorem indicer_roundtrip_fails:
  "(case meshgrid binary64 float_0_1 0 0 5 5 of
      Inl e \<Rightarrow> False
    | Inr g \<Rightarrow>
        shape g = (51, 51) \<and>
        fst (values g) ! 0 ! 43 = 4841369599423283 / 2 ^ 50 \<and>
        snd (values g) ! 0 ! 43 = 0 \<and>
        indicer binary64 g (fst (values g) ! 0 ! 43, snd (values g) ! 0 ! 43) = (42, 0))"
proof -
  define stop :: real where "stop = 5742089524897382 / 2 ^ 50"
  define len :: real where "len = 7177611906121727 / 2 ^ 47"
  define x43 :: real where "x43 = 4841369599423283 / 2 ^ 50"
  define q :: real where "q = 6051711999279103 / 2 ^ 47"
  have nz: "float_0_1 \<noteq> 0"
    by (simp add: float_0_1_def)
  have s1: "binary64 float_0_1 = float_0_1"
    using binary64_representable [of float_0_1 3602879701896397 "- 55"]
    by (simp add: float_0_1_def power_int_def power_divide)
  have s2: "binary64 (5 + float_0_1) = stop"
    using binary64_eqI [of "2 powi (- 50)" "- 50" "5 + float_0_1" 5742089524897382]
    by (simp add: power_int_def float_0_1_def stop_def power_divide)
  have s3: "binary64 stop = stop"
    using binary64_representable [of stop 5742089524897382 "- 50"]
    by (simp add: stop_def power_int_def power_divide)
  have s4: "binary64 (stop / float_0_1) = len"
    using binary64_eqI [of "2 powi (- 47)" "- 47" "stop / float_0_1" 7177611906121727]
    by (simp add: power_int_def float_0_1_def stop_def len_def power_divide)
  have s5: "nat \<lceil>len\<rceil> = 51"
    by (simp add: len_def ceiling_eq_iff nat_eq_iff)
  have s6: "binary64 (43 * float_0_1) = x43"
    using binary64_eqI [of "2 powi (- 50)" "- 50" "43 * float_0_1" 4841369599423283]
    by (simp add: power_int_def float_0_1_def x43_def power_divide)
  have s7: "binary64 x43 = x43"
    using binary64_representable [of x43 4841369599423283 "- 50"]
    by (simp add: x43_def power_int_def power_divide)
  have s8: "binary64 (x43 / float_0_1) = q"
    using binary64_eqI [of "2 powi (- 47)" "- 47" "x43 / float_0_1" 6051711999279103]
    by (simp add: power_int_def float_0_1_def x43_def q_def power_divide)
  have s9: "astype_int64 q = 42"
    by (simp add: astype_int64_def q_def floor_eq_iff)
  obtain g where g: "meshgrid binary64 float_0_1 0 0 5 5 = Inr g"
    using meshgrid_Inr [OF nz] by blast
  have sh: "shape g = (51, 51)"
    using meshgrid_shape(1) [OF g] by (simp add: s2 s3 s4 s5)
  have x: "fst (values g) ! 0 ! 43 = x43"
    using meshgrid_coordinate(1) [OF g, of 0 43] by (simp add: sh s1 s6 s7)
  have y: "snd (values g) ! 0 ! 43 = 0"
    using meshgrid_coordinate(2) [OF g, of 0 43] by (simp add: sh)
  have "indicer binary64 g (x43, 0) = (42, 0)"
    using astype_int64_of_nat [of 0]
    by (simp add: indicer_def meshgrid_shape(2,3) [OF g] s7 s8 s9)
  then show ?thesis
    by (simp add: g sh x y) (simp add: x43_def)
qed








subsection \<open>The distance map\<close>

lemma py_index_less: "py_index n i = Some r \<Longrightarrow> r < n"
  by (auto simp: py_index_def split: if_splits)

lemma values_to_grid_in_grid:
  assumes "length grid = n" and "\<forall>row \<in> set grid. length row = m"
    and "cells_in_grid (n, m) cells"
  shows "\<exists>grid'. values_to_grid cells grid v = Inr grid'"
  using assms
proof (induction cells arbitrary: grid)
  case Nil
  then show ?case by simp
next
  case (Cons xy cells)
  obtain x y where xy: "xy = (x, y)"
    by (cases xy)
  obtain r where r: "py_index n y = Some r"
    using Cons.prems(3) by (auto simp: cells_in_grid_def xy)
  obtain c where c: "py_index m x = Some c"
    using Cons.prems(3) by (auto simp: cells_in_grid_def xy)
  have rn: "r < n"
    using r by (rule py_index_less)
  have lr: "length (grid ! r) = m"
    using Cons.prems(1,2) rn by simp
  let ?grid = "grid[r := (grid ! r)[c := v]]"
  have 1: "length ?grid = n"
    using Cons.prems(1) by simp
  have 2: "\<forall>row \<in> set ?grid. length row = m"
    using Cons.prems(2) lr by (auto dest!: set_update_subset_insert [THEN subsetD])
  have 3: "cells_in_grid (n, m) cells"
    using Cons.prems(3) by (simp add: cells_in_grid_def)
  show ?case
    using Cons.IH [OF 1 2 3] Cons.prems(1) by (simp add: xy r c lr)
qed

lemma np_full_shape:
  "length (np_full shp v) = fst shp" "\<forall>row \<in> set (np_full shp v). length row = snd shp"
  by (simp_all add: np_full_def)

lemma masked_array_no_target:
  "\<not> list_ex (list_ex (\<lambda>c. case c of None \<Rightarrow> False | Some v \<Rightarrow> 0 < v))
       (masked_array (np_full shp (- 1)) m)"
  by (auto simp: list_ex_iff masked_array_def np_full_def set_zip split: option.splits if_splits)

lemma distance_map_no_targets_cases:
  "distance_map march mgrid [] obstacles =
     (case obstacles of
        None \<Rightarrow> Inl UnsolvableFieldError
      | Some cells \<Rightarrow>
          (case values_to_grid cells (np_full (shape mgrid) False) True of
             Inl e \<Rightarrow> Inl e
           | Inr m \<Rightarrow> Inl UnsolvableFieldError))"
  by (simp add: distance_map_def eikonal_solve_def masked_array_no_target
      split: option.splits sum.splits)

text \<open>
  Claim C4 (no target cell). For every grid and every set of obstacle cells of the grid
  (or none), \<open>distance_map\<close> with an empty set of target cells hands the solver an array
  with no target cell in it, and the solver fails with UnsolvableFieldError: no field is
  returned. The failure is the solver's, modelled from the spec; \<open>distance_map\<close> has
  no check of its own.
\<close>

theorem distance_map_no_targets:
  assumes "case obstacles of None \<Rightarrow> True | Some cells \<Rightarrow> cells_in_grid (shape mgrid) cells"
  shows "distance_map march mgrid [] obstacles = Inl UnsolvableFieldError"
proof (cases obstacles)
  case None
  then show ?thesis
    by (simp add: distance_map_no_targets_cases)
next
  case (Some cells)
  then have "cells_in_grid (fst (shape mgrid), snd (shape mgrid)) cells"
    using assms by simp
  then have "\<exists>m. values_to_grid cells (np_full (shape mgrid) False) True = Inr m"
    by (rule values_to_grid_in_grid [OF np_full_shape(1) np_full_shape(2)])
  then obtain m where "values_to_grid cells (np_full (shape mgrid) False) True = Inr m"
    by blast
  then show ?thesis
    by (simp add: distance_map_no_targets_cases Some)
qed

text \<open>Witness of C4: a grid of two rows and columns with one obstacle cell.\<close>

theorem distance_map_no_targets_witness:
  "distance_map (\<lambda>phi dx. phi)
     \<lparr>values = ([[0, 1], [0, 1]], [[0, 0], [1, 1]]), shape = (2, 2), step = 1,
      bounds = (0, 0, 1, 1)\<rparr> [] (Some [(1, 0)]) = Inl UnsolvableFieldError"
  using distance_map_no_targets
    [where obstacles = "Some [(1, 0)]" and march = "\<lambda>phi dx. phi"
       and mgrid = "\<lparr>values = ([[0, 1], [0, 1]], [[0, 0], [1, 1]]), shape = (2, 2),
      step = 1, bounds = (0, 0, 1, 1)\<rparr>"]
  by (simp add: cells_in_grid_def py_index_def)

subsection \<open>The direction map\<close>

text \<open>
  In exact arithmetic a defined cell holds the gradient divided by its length, with the
  sign of the gradient: \<open>a\<close> is the derivative along the rows axis, \<open>b\<close> the one along
  the columns axis.
\<close>

lemma direction_cell_exact:
  "direction_cell exact (Some a) (Some b) =
     (if a = 0 \<and> b = 0 then None
      else Some (b / sqrt (a * a + b * b), a / sqrt (a * a + b * b)))"
proof -
  have "sqrt (a * a + b * b) = 0 \<longleftrightarrow> a = 0 \<and> b = 0"
    by (simp add: add_nonneg_eq_0_iff)
  then show ?thesis
    by (simp add: direction_cell_def exact_def Let_def)
qed

text \<open>
  Claim C1 (the direction is the negated, normalized gradient). The code does not
  negate. On the field that grows with the column, 0, 1, 2 in each row, the gradient is
  \<open>(1, 0)\<close>; \<open>direction_map\<close> returns \<open>(1, 0)\<close> in every cell, toward growing
  values, where the claim and the docstring of \<open>direction_map\<close> say \<open>(-1, 0)\<close>.
\<close>

theorem direction_map_points_uphill:
  "direction_map binary64 [[Some 0, Some 1, Some 2], [Some 0, Some 1, Some 2]] =
     Inr [[Some (1, 0), Some (1, 0), Some (1, 0)], [Some (1, 0), Some (1, 0), Some (1, 0)]]"
  using binary64_of_int [of 2]
  by (simp add: direction_map_def np_gradient_def gradient_1d_def msub_def mdiv_def
      direction_cell_def)

lemma sum_scaled_squares:
  fixes c p q l :: real
  shows "(c * (q / l))\<^sup>2 + (c * (p / l))\<^sup>2 = (c * sqrt (p * p + q * q) / l)\<^sup>2"
proof -
  have "(c * sqrt (p * p + q * q) / l)\<^sup>2 = c\<^sup>2 * (p * p + q * q) / l\<^sup>2"
    by (simp add: power_mult_distrib power_divide)
  also have "\<dots> = (c * (q / l))\<^sup>2 + (c * (p / l))\<^sup>2"
    by (simp add: power_mult_distrib power_divide power2_eq_square distrib_left
        add_divide_distrib mult_ac)
  finally show ?thesis by simp
qed

lemma direction_cell_unit:
  fixes fl :: "real \<Rightarrow> real"
  assumes fl: "\<And>x. \<bar>fl x - x\<bar> \<le> eps * \<bar>x\<bar>" and eps: "eps \<le> 1 / 10 ^ 7"
    and c: "direction_cell fl u v = Some (a, b)"
  shows "\<bar>sqrt (a * a + b * b) - 1\<bar> \<le> 1 / 10 ^ 6"
proof -
  define t :: real where "t = 1 / 10 ^ 6"
  have e0: "0 \<le> eps"
    by (rule rel_error_bounds(1) [OF fl])
  have e1: "eps \<le> 1"
    using eps by simp
  obtain p q where u: "u = Some p" and v: "v = Some q"
    and l0: "fl (sqrt (p * p + q * q)) \<noteq> 0"
    and a: "a = fl (q / fl (sqrt (p * p + q * q)))"
    and b: "b = fl (p / fl (sqrt (p * p + q * q)))"
    using c by (auto simp: direction_cell_def Let_def split: option.splits if_splits)
  define n where "n = sqrt (p * p + q * q)"
  define l where "l = fl n"
  have n0: "0 \<le> n"
    by (simp add: n_def)
  have nn: "n\<^sup>2 = p\<^sup>2 + q\<^sup>2"
    by (simp add: n_def power2_eq_square)
  have lne: "l \<noteq> 0"
    using l0 by (simp add: l_def n_def)
  have "n \<noteq> 0"
  proof
    assume "n = 0"
    then have "l = 0"
      using fl [of 0] by (simp add: l_def)
    with lne show False by simp
  qed
  with n0 have npos: "0 < n"
    by simp
  have l_lo: "(1 - eps) * n \<le> l" and l_hi: "l \<le> (1 + eps) * n"
    using fl [of n] n0 by (simp_all add: l_def algebra_simps abs_if split: if_splits)
  have lpos: "0 < l"
  proof -
    have "0 < (1 - eps) * n"
      using eps npos by simp
    with l_lo show ?thesis by simp
  qed
  have hi: "(1 + eps) * n \<le> (1 + t) * l"
  proof -
    have "(1 + eps) \<le> (1 + t) * (1 - eps)"
      using eps e0 unfolding t_def by (simp add: field_simps)
    then have "(1 + eps) * n \<le> (1 + t) * (1 - eps) * n"
      using n0 by (simp add: mult_right_mono)
    also have "\<dots> = (1 + t) * ((1 - eps) * n)"
      by simp
    also have "\<dots> \<le> (1 + t) * l"
      by (rule mult_left_mono [OF l_lo]) (simp add: t_def)
    finally show ?thesis .
  qed
  have lo: "(1 - t) * l \<le> (1 - eps) * n"
  proof -
    have "(1 - t) * l \<le> (1 - t) * ((1 + eps) * n)"
      by (rule mult_left_mono [OF l_hi]) (simp add: t_def)
    also have "\<dots> = ((1 - t) * (1 + eps)) * n"
      by simp
    also have "\<dots> \<le> (1 - eps) * n"
    proof (rule mult_right_mono)
      show "(1 - t) * (1 + eps) \<le> 1 - eps"
        using eps e0 unfolding t_def by (simp add: field_simps)
    qed (rule n0)
    finally show ?thesis .
  qed
  define S where "S = a\<^sup>2 + b\<^sup>2"
  have S_hi: "S \<le> ((1 + eps) * n / l)\<^sup>2"
  proof -
    have "a\<^sup>2 \<le> ((1 + eps) * (q / l))\<^sup>2" and "b\<^sup>2 \<le> ((1 + eps) * (p / l))\<^sup>2"
      unfolding a b l_def n_def by (rule rel_error_square(2) [OF fl e1])+
    then have "S \<le> ((1 + eps) * (q / l))\<^sup>2 + ((1 + eps) * (p / l))\<^sup>2"
      by (simp add: S_def)
    then show ?thesis
      by (simp only: sum_scaled_squares n_def)
  qed
  have S_lo: "((1 - eps) * n / l)\<^sup>2 \<le> S"
  proof -
    have "((1 - eps) * (q / l))\<^sup>2 \<le> a\<^sup>2" and "((1 - eps) * (p / l))\<^sup>2 \<le> b\<^sup>2"
      unfolding a b l_def n_def by (rule rel_error_square(1) [OF fl e1])+
    then have "((1 - eps) * (q / l))\<^sup>2 + ((1 - eps) * (p / l))\<^sup>2 \<le> S"
      by (simp add: S_def)
    then show ?thesis
      by (simp only: sum_scaled_squares n_def)
  qed
  have r_hi: "(1 + eps) * n / l \<le> 1 + t"
    using hi lpos by (simp add: field_simps)
  have r_lo: "1 - t \<le> (1 - eps) * n / l"
    using lo lpos by (simp add: field_simps)
  have r0: "0 \<le> (1 + eps) * n / l"
    using e0 n0 lpos by simp
  have t0: "0 \<le> 1 - t"
    by (simp add: t_def)
  have "S \<le> (1 + t)\<^sup>2"
  proof -
    have "((1 + eps) * n / l)\<^sup>2 \<le> (1 + t)\<^sup>2"
      using r_hi r0 by (rule power_mono)
    with S_hi show ?thesis by simp
  qed
  then have up: "sqrt S \<le> 1 + t"
    by (rule real_le_lsqrt [rotated]) (simp add: t_def)
  have "(1 - t)\<^sup>2 \<le> S"
  proof -
    have "(1 - t)\<^sup>2 \<le> ((1 - eps) * n / l)\<^sup>2"
      using r_lo t0 by (rule power_mono)
    with S_lo show ?thesis by simp
  qed
  then have dn: "1 - t \<le> sqrt S"
    by (rule real_le_rsqrt)
  have "\<bar>sqrt S - 1\<bar> \<le> t"
    using up dn by (simp add: abs_le_iff)
  then show ?thesis
    by (simp only: S_def t_def power2_eq_square)
qed

lemma unit_cell_direction_cell:
  fixes fl :: "real \<Rightarrow> real"
  assumes fl: "\<And>x. \<bar>fl x - x\<bar> \<le> eps * \<bar>x\<bar>" and eps: "eps \<le> 1 / 10 ^ 7"
  shows "unit_cell (direction_cell fl u v)"
proof (cases "direction_cell fl u v")
  case None
  then show ?thesis by (simp add: unit_cell_def)
next
  case (Some e)
  then have "direction_cell fl u v = Some (fst e, snd e)"
    by simp
  then have "\<bar>sqrt (fst e * fst e + snd e * snd e) - 1\<bar> \<le> 1 / 10 ^ 6"
    by (rule direction_cell_unit [OF fl eps])
  then show ?thesis
    by (simp add: unit_cell_def Some)
qed

lemma direction_map_unit:
  fixes fl :: "real \<Rightarrow> real"
  assumes fl: "\<And>x. \<bar>fl x - x\<bar> \<le> eps * \<bar>x\<bar>" and eps: "eps \<le> 1 / 10 ^ 7"
    and d: "direction_map fl dmap = Inr d"
  shows "unit_field d"
proof -
  obtain u v where d': "d = map2 (map2 (direction_cell fl)) u v"
    using d by (auto simp: direction_map_def split: sum.splits)
  show ?thesis
    using unit_cell_direction_cell [OF fl eps]
    by (auto simp: d' unit_field_def list_all_iff set_zip)
qed

subsection \<open>Field repair\<close>

lemma true_cells_iff:
  "(i, j) \<in> set (true_cells b) \<longleftrightarrow> i < length b \<and> j < length (b ! i) \<and> b ! i ! j"
  by (auto simp: true_cells_def)

lemma find_boundaries_shape:
  "length (find_boundaries m) = length m"
  "i < length m \<Longrightarrow> length (find_boundaries m ! i) = length (m ! i)"
  by (simp_all add: find_boundaries_def)

lemma unit_field_nth:
  "unit_field d \<Longrightarrow> i < length d \<Longrightarrow> j < length (d ! i) \<Longrightarrow> unit_cell (d ! i ! j)"
  by (simp add: unit_field_def list_all_length)

lemma nearest_in:
  "pvs \<noteq> [] \<Longrightarrow> nearest pvs q \<in> snd ` set pvs"
  by (simp add: nearest_def arg_min_list_in)

lemma fill_missing_unit:
  assumes u: "unit_field d" and f: "fill_missing mask' g d = Inr d'"
  shows "unit_field d'"
proof -
  obtain x y where xy: "values g = (x, y)"
    by (cases "values g")
  define umask where "umask = map (map (\<lambda>c. c = None)) d"
  define boundaries where "boundaries = true_cells (find_boundaries umask)"
  define points where
    "points = map (\<lambda>(i, j). ((y ! i ! j, x ! i ! j), d ! i ! j)) boundaries"
  define mask2 where "mask2 = map2 (map2 (\<lambda>a b. a \<noteq> b)) mask' umask"
  define filled where
    "filled = (\<lambda>i j. if mask2 ! i ! j then nearest points (y ! i ! j, x ! i ! j)
                      else d ! i ! j)"
  have shp: "map length mask' = map length d"
    and ne: "boundaries \<noteq> [] \<or> true_cells mask2 = []"
    and d': "d' = map (\<lambda>i. map (filled i) [0..<length (d ! i)]) [0..<length d]"
    using f
    by (auto simp: fill_missing_def xy Let_def umask_def boundaries_def points_def mask2_def
        filled_def split: if_splits)
  have pts: "unit_cell c" if cin: "c \<in> snd ` set points" for c
  proof -
    obtain pv where pv: "pv \<in> set points" and cpv: "c = snd pv"
      using cin by auto
    obtain ij where ijb: "ij \<in> set boundaries"
      and pvij: "pv = (\<lambda>(i, j). ((y ! i ! j, x ! i ! j), d ! i ! j)) ij"
      using pv unfolding points_def by auto
    obtain i j where ijeq: "ij = (i, j)"
      by (cases ij)
    have ij: "(i, j) \<in> set boundaries" and c: "c = d ! i ! j"
      using ijb pvij cpv by (simp_all add: ijeq)
    have "i < length d \<and> j < length (d ! i)"
      using ij by (auto simp: boundaries_def true_cells_iff find_boundaries_shape umask_def)
    then show ?thesis
      using u by (simp add: c unit_field_nth)
  qed
  have cell: "unit_cell (filled i j)"
    if i: "i < length d" and j: "j < length (d ! i)" for i j
  proof (cases "mask2 ! i ! j")
    case False
    then show ?thesis
      using u i j by (simp add: filled_def unit_field_nth)
  next
    case True
    have li: "length mask' = length d"
      using shp by (metis length_map)
    have lj: "length (mask' ! i) = length (d ! i)"
      using shp i li by (metis nth_map)
    have "i < length mask2" and "j < length (mask2 ! i)"
      using i j li lj by (simp_all add: mask2_def umask_def)
    then have "(i, j) \<in> set (true_cells mask2)"
      using True by (simp add: true_cells_iff)
    then have "boundaries \<noteq> []"
      using ne by auto
    then have "points \<noteq> []"
      by (simp add: points_def)
    then have "nearest points (y ! i ! j, x ! i ! j) \<in> snd ` set points"
      by (rule nearest_in)
    then show ?thesis
      using True pts by (simp add: filled_def)
  qed
  show ?thesis
    using cell by (auto simp: d' unit_field_def list_all_iff)
qed

lemma direction_map_targets_unit:
  fixes fl :: "real \<Rightarrow> real"
  assumes fl: "\<And>x. \<bar>fl x - x\<bar> \<le> eps * \<bar>x\<bar>" and eps: "eps \<le> 1 / 10 ^ 7"
    and r: "direction_map_targets fl march mgrid targets obstacles_buffered obstacles
              = Inr (d, dm)"
  shows "unit_field d"
proof -
  obtain dmap dirs m where "direction_map fl dmap = Inr dirs"
    and "fill_missing m mgrid dirs = Inr d"
    using r by (auto simp: direction_map_targets_def split: sum.splits)
  then show ?thesis
    using direction_map_unit [OF fl eps] fill_missing_unit by blast
qed

text \<open>
  What \<open>fill_missing\<close> does to one cell: a cell whose exclusion flag differs from its
  being undefined gets the vector of the nearest boundary cell, every other cell is kept.
\<close>

lemma fill_missing_cell:
  assumes f: "fill_missing mask' g d = Inr d'" and i: "i < length d" and j: "j < length (d ! i)"
  shows "d' ! i ! j =
           (if mask' ! i ! j \<noteq> (d ! i ! j = None)
            then nearest (map (\<lambda>(k, l). ((snd (values g) ! k ! l, fst (values g) ! k ! l), d ! k ! l))
                           (true_cells (find_boundaries (map (map (\<lambda>c. c = None)) d))))
                   (snd (values g) ! i ! j, fst (values g) ! i ! j)
            else d ! i ! j)"
proof -
  obtain x y where xy: "values g = (x, y)"
    by (cases "values g")
  have shp: "map length mask' = map length d"
    using f by (auto simp: fill_missing_def xy Let_def split: if_splits)
  have li: "length mask' = length d"
    using shp by (metis length_map)
  have lj: "length (mask' ! i) = length (d ! i)"
    using shp i li by (metis nth_map)
  have m2: "map2 (map2 (\<lambda>a b. a \<noteq> b)) mask' (map (map (\<lambda>c. c = None)) d) ! i ! j
            = (mask' ! i ! j \<noteq> (d ! i ! j = None))"
    using i j li lj by simp
  show ?thesis
    using f i j m2
    by (auto simp: fill_missing_def xy Let_def split: if_splits)
qed


text \<open>
  Claim C7 (defined cells hold unit vectors). Let the arithmetic round with a relative
  error of at most \<open>eps\<close>, where \<open>eps\<close> is at most \<open>10\<^sup>-\<^sup>7\<close> (for doubles it is
  \<open>2\<^sup>-\<^sup>5\<^sup>3\<close>). Then every defined cell of the field that \<open>direction_map\<close> returns has
  a Euclidean length within \<open>10\<^sup>-\<^sup>6\<close> of 1, \<open>fill_missing\<close> keeps this invariant, and
  so the field that \<open>direction_map_targets\<close> returns has it. An undefined cell is
  \<open>None\<close>: it carries no direction.
\<close>

theorem unit_vector_invariant:
  fixes fl :: "real \<Rightarrow> real"
  assumes "\<forall>x. \<bar>fl x - x\<bar> \<le> eps * \<bar>x\<bar>" and "eps \<le> 1 / 10 ^ 7"
  shows "(direction_map fl dmap = Inr d \<longrightarrow> unit_field d)
       \<and> (unit_field d0 \<and> fill_missing mask' g d0 = Inr d1 \<longrightarrow> unit_field d1)
       \<and> (direction_map_targets fl march mgrid targets obstacles_buffered obstacles
             = Inr (d2, dm) \<longrightarrow> unit_field d2)"
proof -
  have fl: "\<bar>fl x - x\<bar> \<le> eps * \<bar>x\<bar>" for x
    using assms(1) by blast
  show ?thesis
    using direction_map_unit [OF fl assms(2)] fill_missing_unit
      direction_map_targets_unit [OF fl assms(2)]
    by blast
qed

text \<open>
  Witness of C7: binary64 rounding, a field that grows with the row, and a field whose
  second column is filled from the first.
\<close>

theorem unit_vector_invariant_witness:
  "unit_field [[Some (0, 1), Some (0, 1)], [Some (0, 1), Some (0, 1)]]
   \<and> unit_field [[Some (1, 0), Some (1, 0)], [Some (1, 0), Some (1, 0)]]"
proof -
  let ?field = "[[Some 0, Some 0], [Some 1, Some (1::real)]]"
  let ?dirs = "[[Some (0, 1), Some (0, 1)], [Some (0, 1), Some (0::real, 1::real)]]"
  let ?g = "\<lparr>values = ([[0, 1], [0, 1]], [[0, 0], [1, 1]]), shape = (2, 2), step = 1,
             bounds = (0, 0, 1, 1)\<rparr>"
  let ?before = "[[Some (1::real, 0::real), None], [Some (1, 0), None]]"
  let ?after = "[[Some (1, 0), Some (1, 0)], [Some (1, 0), Some (1::real, 0::real)]]"
  let ?mask = "[[False, False], [False, False]]"
  have rel: "\<forall>x. \<bar>binary64 x - x\<bar> \<le> (1 / 2 ^ 53) * \<bar>x\<bar>"
    using binary64_rel_error by blast
  have eps: "(1 / 2 ^ 53 :: real) \<le> 1 / 10 ^ 7"
    by simp
  have dm: "direction_map binary64 ?field = Inr ?dirs"
    by (simp add: direction_map_def np_gradient_def gradient_1d_def msub_def mdiv_def
        direction_cell_def)
  have u0: "unit_field ?before"
    by (simp add: unit_field_def unit_cell_def)
  have fm: "fill_missing ?mask ?g ?before = Inr ?after"
    by (simp add: fill_missing_def find_boundaries_def true_cells_def nearest_def sqdist_def
        Let_def)
  show ?thesis
    using unit_vector_invariant [OF rel eps, of ?field ?dirs ?before ?mask ?g ?after] dm u0 fm
    by simp
qed

subsection \<open>The adjusting force and torque\<close>

text \<open>
  Claim C8. For every input with \<open>tau_adj > 0\<close> the adjusting force is
  \<open>(mass / tau_adj) * (v0 * e0 - v)\<close>, component by component; and
  \<open>force(mass = 2, tau_adj = 0.5, v0 = 1.0, e0 = (1, 0), v = (0, 0)) = (4, 0)\<close>,
  also when every operation rounds to binary64.
\<close>

theorem force_adjust_formula:
  "(0 < tau_adj \<longrightarrow>
      force_adjust exact mass tau_adj v0 (ex, ey) (vx, vy) =
        Inr ((mass / tau_adj) * (v0 * ex - vx), (mass / tau_adj) * (v0 * ey - vy)))
   \<and> force_adjust binary64 2 (1 / 2) 1 (1, 0) (0, 0) = Inr (4, 0)"
  by (simp add: force_adjust_def exact_def)

text \<open>Witness of C8: the example of the spec.\<close>

theorem force_adjust_formula_witness:
  "(0::real) < 1 / 2 \<and> force_adjust exact 2 (1 / 2) 1 (1, 0) (0, 0) = Inr (4, 0)"
  using force_adjust_formula [of "1 / 2" 2 1 1 0 0 0] by simp

lemma wrap_to_pi_range: "- pi \<le> wrap_to_pi x \<and> wrap_to_pi x \<le> pi"
proof (cases "- pi \<le> x \<and> x \<le> pi")
  case True
  then show ?thesis by (simp add: wrap_to_pi_def)
next
  case False
  define t where "t = (x + pi) / (2 * pi)"
  have t: "2 * pi * t = x + pi"
    by (simp add: t_def)
  have "of_int \<lfloor>t\<rfloor> \<le> t" "t < of_int \<lfloor>t\<rfloor> + 1"
    by linarith+
  then have "2 * pi * of_int \<lfloor>t\<rfloor> \<le> 2 * pi * t"
    and "2 * pi * t < 2 * pi * (of_int \<lfloor>t\<rfloor> + 1)"
    using pi_gt_zero by simp_all
  then have "2 * pi * of_int \<lfloor>t\<rfloor> \<le> x + pi"
    and "x + pi < 2 * pi * of_int \<lfloor>t\<rfloor> + 2 * pi"
    by (simp_all only: t distrib_left mult_1_right)
  then show ?thesis
    using False by (simp add: wrap_to_pi_def flip: t_def)
qed

lemma wrap_to_pi_congruent: "\<exists>k::int. wrap_to_pi x = x - 2 * pi * of_int k"
proof (cases "- pi \<le> x \<and> x \<le> pi")
  case True
  then have "wrap_to_pi x = x - 2 * pi * of_int 0"
    by (simp add: wrap_to_pi_def)
  then show ?thesis ..
next
  case False
  have "wrap_to_pi x = x - 2 * pi * of_int \<lfloor>(x + pi) / (2 * pi)\<rfloor>"
    by (simp only: wrap_to_pi_def if_not_P [OF False])
  then show ?thesis ..
qed

text \<open>
  Claim C9. For every input with \<open>tau_rot > 0\<close> the adjusting torque is
  \<open>(inertia_rot / tau_rot) * (wrap_to_pi (phi_0 - phi) / pi * omega_0 - omega)\<close>, where the
  wrapped angle lies in \<open>[-pi, pi]\<close> and differs from \<open>phi_0 - phi\<close> by a multiple of
  \<open>2 * pi\<close>. With inertia 1, \<open>tau_rot = 0.5\<close>, \<open>phi_0 = 0\<close>, \<open>omega_0 = 1\<close> and
  \<open>omega = 0\<close> the torque is 0 at \<open>phi = 0\<close> (also under binary64 rounding), it is
  \<open>-1\<close> at \<open>phi = pi / 2\<close> and \<open>1\<close> at \<open>phi = - pi / 2\<close>: the sign flips with \<open>phi\<close>.
\<close>

theorem torque_adjust_formula:
  "(0 < tau_rot \<longrightarrow>
      torque_adjust exact inertia_rot tau_rot phi_0 phi omega_0 omega =
        Inr (inertia_rot / tau_rot * (wrap_to_pi (phi_0 - phi) / pi * omega_0 - omega))
      \<and> - pi \<le> wrap_to_pi (phi_0 - phi) \<and> wrap_to_pi (phi_0 - phi) \<le> pi
      \<and> (\<exists>k::int. wrap_to_pi (phi_0 - phi) = phi_0 - phi - 2 * pi * of_int k))
   \<and> torque_adjust exact 1 (1 / 2) 0 0 1 0 = Inr 0
   \<and> torque_adjust binary64 1 (1 / 2) 0 0 1 0 = Inr 0
   \<and> torque_adjust exact 1 (1 / 2) 0 (pi / 2) 1 0 = Inr (- 1)
   \<and> torque_adjust exact 1 (1 / 2) 0 (- pi / 2) 1 0 = Inr 1"
  using wrap_to_pi_range [of "phi_0 - phi"] wrap_to_pi_congruent [of "phi_0 - phi"] pi_gt_zero
  by (simp add: torque_adjust_def exact_def wrap_to_pi_def)

text \<open>Witness of C9: the example of the spec at \<open>phi = pi / 2\<close>.\<close>

theorem torque_adjust_formula_witness:
  "(0::real) < 1 / 2 \<and>
   torque_adjust exact 1 (1 / 2) 0 (pi / 2) 1 0 =
     Inr (1 / (1 / 2) * (wrap_to_pi (0 - pi / 2) / pi * 1 - 0))"
  using torque_adjust_formula [of "1 / 2" 1 0 "pi / 2" 1 0] by simp

end
